theory Spec2Isabelle
  imports Main "HOL-Library.AList" "HOL-Library.Sublist"
begin

section \<open>Data model\<close>

text \<open>
  The reconciliation core of \<^verbatim>\<open>pkg/controller/oam/applicationconfiguration/apply.go\<close>.
  Documents are loosely typed: a Go \<^verbatim>\<open>interface{}\<close> holds a scalar, a slice, a
  \<^verbatim>\<open>map[string]interface{}\<close>, or a Go struct of type \<^verbatim>\<open>TypedReference\<close> (what
  \<^verbatim>\<open>append(refs, workloadRef)\<close> puts into the slice it hands to the field accessor). A map is an association list read with \<open>map_of\<close> and
  written with \<open>AList.update\<close>. The \<^verbatim>\<open>UID\<close> of a \<^verbatim>\<open>TypedReference\<close>, which this code
  never sets or reads, is left out. An unstructured document is its content map, taken
  to be allocated (not \<^verbatim>\<open>nil\<close>).
\<close>

record TypedReference =
  APIVersion :: string
  Kind :: string
  Name :: string

datatype val =
    Null
  | Str string
  | Num int
  | Boolean bool
  | Lst "val list"
  | Obj "(string \<times> val) list"
  | Struct TypedReference

type_synonym Unstructured = "(string \<times> val) list"

record WorkloadScope =
  Reference :: TypedReference

record WorkloadStatus =
  Reference :: TypedReference
  Scopes :: "WorkloadScope list"

record Workload =
  Workload :: Unstructured
  Traits :: "Unstructured list"
  Scopes :: "Unstructured list"

text \<open>Only the one field of a trait definition that \<^verbatim>\<open>Apply\<close> reads. A field path is
  kept as the list of its field names (\<^verbatim>\<open>spec.targetRef\<close> is \<open>[''spec'', ''targetRef'']\<close>),
  so the empty string is the empty list; bracket-indexed segments are outside the model.\<close>

record TraitDefinition =
  WorkloadRefPath :: "string list"

text \<open>Errors are values: \<^verbatim>\<open>errors.New\<close>, \<^verbatim>\<open>errors.Wrapf\<close> with its format and
  arguments, and the errors the collaborators hand back.\<close>

datatype error =
    New string
  | External string
  | Wrapf error string "string list"

text \<open>What a call of a Go function of result type \<^verbatim>\<open>error\<close> does: it returns
  \<^verbatim>\<open>nil\<close>, returns an error, or panics.\<close>

datatype outcome = Ok | Err error | Panic

definition errFmtApplyWorkload :: string where
  "errFmtApplyWorkload = ''cannot apply workload %q''"

definition errFmtSetWorkloadRef :: string where
  "errFmtSetWorkloadRef = ''cannot set trait %q reference to %q''"

definition errFmtGetTraitDefinition :: string where
  "errFmtGetTraitDefinition = ''cannot find trait definition %q %q %q''"

definition errFmtApplyTrait :: string where
  "errFmtApplyTrait = ''cannot apply trait %q %q %q''"

definition errFmtApplyScope :: string where
  "errFmtApplyScope = ''cannot apply scope %q %q %q''"

section \<open>The document accessors\<close>

text \<open>Modelled from the spec: the JSON form of a value, which is what the field accessor
  stores and what the object store keeps (both belong to external libraries, which marshal
  a value to JSON and read it back). A \<^verbatim>\<open>TypedReference\<close> struct becomes the map of its
  three fields.\<close>

definition refJSON :: "TypedReference \<Rightarrow> (string \<times> val) list" where
  "refJSON r = [(''apiVersion'', Str (APIVersion r)), (''kind'', Str (Kind r)), (''name'', Str (Name r))]"

primrec jsonVal :: "val \<Rightarrow> val" where
  "jsonVal Null = Null"
| "jsonVal (Str s) = Str s"
| "jsonVal (Num n) = Num n"
| "jsonVal (Boolean b) = Boolean b"
| "jsonVal (Lst xs) = Lst (map jsonVal xs)"
| "jsonVal (Obj m) = Obj (map (map_prod id jsonVal) m)"
| "jsonVal (Struct r) = Obj (refJSON r)"

definition jsonDoc :: "Unstructured \<Rightarrow> Unstructured" where
  "jsonDoc u = map (map_prod id jsonVal) u"

text \<open>Modelled from the spec: the typed-document field accessor
  (\<^verbatim>\<open>fieldpath.Pave(..).GetValue\<close> and \<^verbatim>\<open>SetValue\<close>) is an external collaborator
  whose code is not part of the sources. \<open>GetValue\<close> walks the field names and fails
  on a value that is not a map or on a missing field; \<open>SetValue\<close> creates the missing
  intermediate maps, fails on an intermediate value that is not a map, and writes the JSON
  form of the value under the last field.\<close>

fun getIn :: "(string \<times> val) list \<Rightarrow> string \<Rightarrow> string list \<Rightarrow> error + val" where
  "getIn m f [] =
     (case map_of m f of
        None \<Rightarrow> Inl (New ''no such field'')
      | Some v \<Rightarrow> Inr v)"
| "getIn m f (g # gs) =
     (case map_of m f of
        None \<Rightarrow> Inl (New ''no such field'')
      | Some (Obj c) \<Rightarrow> getIn c g gs
      | Some _ \<Rightarrow> Inl (New ''not an object''))"

definition GetValue :: "Unstructured \<Rightarrow> string list \<Rightarrow> error + val" where
  "GetValue u p = (case p of [] \<Rightarrow> Inr Null | f # fs \<Rightarrow> getIn u f fs)"

fun setIn :: "(string \<times> val) list \<Rightarrow> string \<Rightarrow> string list \<Rightarrow> val \<Rightarrow> error + (string \<times> val) list" where
  "setIn m f [] x = Inr (AList.update f x m)"
| "setIn m f (g # gs) x =
     (case map_of m f of
        None \<Rightarrow>
          (case setIn [] g gs x of
             Inl e \<Rightarrow> Inl e
           | Inr c \<Rightarrow> Inr (AList.update f (Obj c) m))
      | Some (Obj c0) \<Rightarrow>
          (case setIn c0 g gs x of
             Inl e \<Rightarrow> Inl e
           | Inr c \<Rightarrow> Inr (AList.update f (Obj c) m))
      | Some _ \<Rightarrow> Inl (New ''not an object''))"

definition SetValue :: "Unstructured \<Rightarrow> string list \<Rightarrow> val \<Rightarrow> error + Unstructured" where
  "SetValue u p x = (case p of [] \<Rightarrow> Inr u | f # fs \<Rightarrow> setIn u f fs (jsonVal x))"

text \<open>Modelled from the spec: the identity getters of an unstructured document
  (\<^verbatim>\<open>GetAPIVersion\<close>, \<^verbatim>\<open>GetKind\<close>, \<^verbatim>\<open>GetName\<close>, \<^verbatim>\<open>GetNamespace\<close>) belong to
  the Kubernetes library. Each reads a nested string and yields the empty string when the
  field is missing or is not a string.\<close>

definition NestedString :: "Unstructured \<Rightarrow> string list \<Rightarrow> string" where
  "NestedString u p = (case GetValue u p of Inr (Str s) \<Rightarrow> s | _ \<Rightarrow> [])"

definition GetAPIVersion :: "Unstructured \<Rightarrow> string" where
  "GetAPIVersion u = NestedString u [''apiVersion'']"

definition GetKind :: "Unstructured \<Rightarrow> string" where
  "GetKind u = NestedString u [''kind'']"

definition GetName :: "Unstructured \<Rightarrow> string" where
  "GetName u = NestedString u [''metadata'', ''name'']"

definition GetNamespace :: "Unstructured \<Rightarrow> string" where
  "GetNamespace u = NestedString u [''metadata'', ''namespace'']"

section \<open>The collaborators and the observable world\<close>

text \<open>\<^verbatim>\<open>types.NamespacedName\<close> together with the apiVersion and kind preset on the object
  that \<^verbatim>\<open>rawClient.Get\<close> fills.\<close>

record ObjectKey =
  keyAPIVersion :: string
  keyKind :: string
  keyNamespace :: string
  keyName :: string

text \<open>The struct \<^verbatim>\<open>workloads\<close> holds its two clients; the trait-definition lookup of
  \<^verbatim>\<open>util.FetchTraitDefinition\<close> reads through \<^verbatim>\<open>rawClient\<close>. The object store is
  any type \<open>'s\<close>. \<open>client_Apply\<close> hands back the document as the store left it, since
  the Go call receives a pointer. The context and the apply options, which are only
  passed through to the clients, are left out.\<close>

record 's workloads =
  client_Apply :: "Unstructured \<Rightarrow> 's \<Rightarrow> error option \<times> Unstructured \<times> 's"
  rawClient_Get :: "ObjectKey \<Rightarrow> 's \<Rightarrow> error + Unstructured"
  rawClient_Update :: "Unstructured \<Rightarrow> 's \<Rightarrow> error option \<times> 's"
  FetchTraitDefinition :: "Unstructured \<Rightarrow> 's \<Rightarrow> error + TraitDefinition"

text \<open>Every call of a collaborator is recorded, in order, next to the store.\<close>

datatype event =
    EvApply Unstructured
  | EvFetchTraitDefinition Unstructured
  | EvGet ObjectKey
  | EvUpdate Unstructured

record 's world =
  store :: 's
  trace :: "event list"

definition doApply :: "'s workloads \<Rightarrow> Unstructured \<Rightarrow> 's world \<Rightarrow> error option \<times> Unstructured \<times> 's world" where
  "doApply a d \<sigma> =
     (case client_Apply a d (store \<sigma>) of
        (r, d', s') \<Rightarrow> (r, d', \<lparr>store = s', trace = trace \<sigma> @ [EvApply d]\<rparr>))"

definition doUpdate :: "'s workloads \<Rightarrow> Unstructured \<Rightarrow> 's world \<Rightarrow> error option \<times> 's world" where
  "doUpdate a d \<sigma> =
     (case rawClient_Update a d (store \<sigma>) of
        (r, s') \<Rightarrow> (r, \<lparr>store = s', trace = trace \<sigma> @ [EvUpdate d]\<rparr>))"

definition doGet :: "'s workloads \<Rightarrow> ObjectKey \<Rightarrow> 's world \<Rightarrow> (error + Unstructured) \<times> 's world" where
  "doGet a k \<sigma> = (rawClient_Get a k (store \<sigma>), \<sigma>\<lparr>trace := trace \<sigma> @ [EvGet k]\<rparr>)"

definition doFetchTraitDefinition ::
  "'s workloads \<Rightarrow> Unstructured \<Rightarrow> 's world \<Rightarrow> (error + TraitDefinition) \<times> 's world" where
  "doFetchTraitDefinition a t \<sigma> =
     (FetchTraitDefinition a t (store \<sigma>), \<sigma>\<lparr>trace := trace \<sigma> @ [EvFetchTraitDefinition t]\<rparr>)"

section \<open>Scope mutator: join\<close>

text \<open>The comparison \<^verbatim>\<open>workloadRef.APIVersion == ref["apiVersion"]\<close> of a string with an
  \<^verbatim>\<open>interface{}\<close>: true when the map holds a string of that value under the key.\<close>

definition refMatches :: "TypedReference \<Rightarrow> (string \<times> val) list \<Rightarrow> bool" where
  "refMatches workloadRef ref \<longleftrightarrow>
     map_of ref ''apiVersion'' = Some (Str (APIVersion workloadRef)) \<and>
     map_of ref ''kind'' = Some (Str (Kind workloadRef)) \<and>
     map_of ref ''name'' = Some (Str (Name workloadRef))"

text \<open>The scan of \<^verbatim>\<open>applyScope\<close> (lines 152-160): \<open>Some True\<close> when it returns at a
  match, \<open>Some False\<close> when the loop ends, \<open>None\<close> when the assertion
  \<^verbatim>\<open>item.(map[string]interface{})\<close> panics.\<close>

fun scanJoin :: "TypedReference \<Rightarrow> val list \<Rightarrow> bool option" where
  "scanJoin workloadRef [] = Some False"
| "scanJoin workloadRef (Obj ref # items) =
     (if refMatches workloadRef ref then Some True else scanJoin workloadRef items)"
| "scanJoin workloadRef (item # items) = None"

definition specWorkloadRefs :: "string list" where
  "specWorkloadRefs = [''spec'', ''workloadRefs'']"

text \<open>The tail of \<^verbatim>\<open>applyScope\<close> from line 163: append, set the field, update.\<close>

definition joinWrite ::
  "'s workloads \<Rightarrow> Workload \<Rightarrow> Unstructured \<Rightarrow> TypedReference \<Rightarrow> val list \<Rightarrow> 's world \<Rightarrow> outcome \<times> 's world" where
  "joinWrite a wl s workloadRef refs \<sigma> =
     (case SetValue s specWorkloadRefs (Lst (refs @ [Struct workloadRef])) of
        Inl err \<Rightarrow> (Err (Wrapf err errFmtSetWorkloadRef [GetName s, GetName (Workload wl)]), \<sigma>)
      | Inr s' \<Rightarrow>
          (case doUpdate a s' \<sigma> of
             (Some err, \<sigma>') \<Rightarrow>
               (Err (Wrapf err errFmtApplyScope [GetAPIVersion s', GetKind s', GetName s']), \<sigma>')
           | (None, \<sigma>') \<Rightarrow> (Ok, \<sigma>')))"

definition applyScope ::
  "'s workloads \<Rightarrow> Workload \<Rightarrow> Unstructured \<Rightarrow> TypedReference \<Rightarrow> 's world \<Rightarrow> outcome \<times> 's world" where
  "applyScope a wl s workloadRef \<sigma> =
     (case GetValue s specWorkloadRefs of
        Inr (Lst refs) \<Rightarrow>
          (case scanJoin workloadRef refs of
             None \<Rightarrow> (Panic, \<sigma>)
           | Some True \<Rightarrow> (Ok, \<sigma>)
           | Some False \<Rightarrow> joinWrite a wl s workloadRef refs \<sigma>)
      | Inr _ \<Rightarrow> (Panic, \<sigma>)
      | Inl err \<Rightarrow> joinWrite a wl s workloadRef [] \<sigma>)"

section \<open>Scope mutator: leave\<close>

text \<open>The scan of \<^verbatim>\<open>applyScopeRemoval\<close> (lines 194-203): the index of the first match,
  \<open>-1\<close> when there is none, \<open>None\<close> when the type assertion panics.\<close>

fun scanLeave :: "TypedReference \<Rightarrow> val list \<Rightarrow> int \<Rightarrow> int option" where
  "scanLeave workloadRef [] i = Some (- 1)"
| "scanLeave workloadRef (Obj ref # items) i =
     (if refMatches workloadRef ref then Some i else scanLeave workloadRef items (i + 1))"
| "scanLeave workloadRef (item # items) i = None"

text \<open>Lines 207-208: the last element moves into the freed slot and the slice loses its
  last element. The index is in range whenever the scan found it.\<close>

definition removeAt :: "val list \<Rightarrow> int \<Rightarrow> val list" where
  "removeAt refs workloadRefIndex = butlast (refs[nat workloadRefIndex := last refs])"

definition applyScopeRemoval ::
  "'s workloads \<Rightarrow> string \<Rightarrow> WorkloadStatus \<Rightarrow> WorkloadScope \<Rightarrow> 's world \<Rightarrow> outcome \<times> 's world" where
  "applyScopeRemoval a namespace ws s \<sigma> =
     (let workloadRef = \<lparr>APIVersion = APIVersion (WorkloadStatus.Reference ws),
                         Kind = Kind (WorkloadStatus.Reference ws),
                         Name = Name (WorkloadStatus.Reference ws)\<rparr>;
          sref = WorkloadScope.Reference s;
          scopeObjectRef = \<lparr>keyAPIVersion = APIVersion sref, keyKind = Kind sref,
                            keyNamespace = namespace, keyName = Name sref\<rparr>
      in case doGet a scopeObjectRef \<sigma> of
           (Inl err, \<sigma>1) \<Rightarrow>
             (Err (Wrapf err errFmtApplyScope [APIVersion sref, Kind sref, Name sref]), \<sigma>1)
         | (Inr scopeObject, \<sigma>1) \<Rightarrow>
             (case GetValue scopeObject specWorkloadRefs of
                Inl err \<Rightarrow> (Ok, \<sigma>1)
              | Inr (Lst refs) \<Rightarrow>
                  (case scanLeave workloadRef refs 0 of
                     None \<Rightarrow> (Panic, \<sigma>1)
                   | Some workloadRefIndex \<Rightarrow>
                       if workloadRefIndex \<ge> 0 then
                         (case SetValue scopeObject specWorkloadRefs
                                 (Lst (removeAt refs workloadRefIndex)) of
                            Inl err \<Rightarrow>
                              (Err (Wrapf err errFmtSetWorkloadRef
                                      [Name sref, Name (WorkloadStatus.Reference ws)]), \<sigma>1)
                          | Inr scopeObject' \<Rightarrow>
                              (case doUpdate a scopeObject' \<sigma>1 of
                                 (Some err, \<sigma>2) \<Rightarrow>
                                   (Err (Wrapf err errFmtApplyScope
                                           [APIVersion sref, Kind sref, Name sref]), \<sigma>2)
                               | (None, \<sigma>2) \<Rightarrow> (Ok, \<sigma>2)))
                       else (Ok, \<sigma>1))
              | Inr _ \<Rightarrow> (Panic, \<sigma>1)))"

section \<open>Scope membership differ\<close>

text \<open>The inner loop of \<^verbatim>\<open>findDereferencedScopes\<close> (lines 130-137), with its break.\<close>

fun scopeFound :: "WorkloadScope \<Rightarrow> Unstructured list \<Rightarrow> bool" where
  "scopeFound ss [] = False"
| "scopeFound ss (s # scopes) =
     (if GetAPIVersion s = APIVersion (WorkloadScope.Reference ss) \<and>
         GetKind s = Kind (WorkloadScope.Reference ss) \<and>
         GetName s = Name (WorkloadScope.Reference ss)
      then True else scopeFound ss scopes)"

fun findLoop :: "WorkloadScope list \<Rightarrow> Unstructured list \<Rightarrow> WorkloadScope list \<Rightarrow> WorkloadScope list" where
  "findLoop [] scopes toBeDeferenced = toBeDeferenced"
| "findLoop (ss # statusScopes) scopes toBeDeferenced =
     findLoop statusScopes scopes
       (if \<not> scopeFound ss scopes then toBeDeferenced @ [ss] else toBeDeferenced)"

definition findDereferencedScopes :: "WorkloadScope list \<Rightarrow> Unstructured list \<Rightarrow> WorkloadScope list" where
  "findDereferencedScopes statusScopes scopes = findLoop statusScopes scopes []"

text \<open>The test of lines 109-111 and the loop over the workload set around it (108-114).\<close>

definition sameWorkload :: "WorkloadStatus \<Rightarrow> Workload \<Rightarrow> bool" where
  "sameWorkload st wl \<longleftrightarrow>
     APIVersion (WorkloadStatus.Reference st) = GetAPIVersion (Workload wl) \<and>
     Kind (WorkloadStatus.Reference st) = GetKind (Workload wl) \<and>
     Name (WorkloadStatus.Reference st) = GetName (Workload wl)"

fun narrow :: "WorkloadStatus \<Rightarrow> Workload list \<Rightarrow> WorkloadScope list \<Rightarrow> WorkloadScope list" where
  "narrow st [] toBeDeferenced = toBeDeferenced"
| "narrow st (wl # w) toBeDeferenced =
     narrow st w
       (if sameWorkload st wl
        then findDereferencedScopes (WorkloadStatus.Scopes st) (Workload.Scopes wl)
        else toBeDeferenced)"

definition removalCandidates :: "WorkloadStatus \<Rightarrow> Workload list \<Rightarrow> WorkloadScope list" where
  "removalCandidates st w = narrow st w (WorkloadStatus.Scopes st)"

text \<open>The loop of lines 116-120 and the loop over the prior status (106-121).\<close>

fun leaveLoop ::
  "'s workloads \<Rightarrow> string \<Rightarrow> WorkloadStatus \<Rightarrow> WorkloadScope list \<Rightarrow> 's world \<Rightarrow> outcome \<times> 's world" where
  "leaveLoop a namespace st [] \<sigma> = (Ok, \<sigma>)"
| "leaveLoop a namespace st (s # ss) \<sigma> =
     (case applyScopeRemoval a namespace st s \<sigma> of
        (Ok, \<sigma>') \<Rightarrow> leaveLoop a namespace st ss \<sigma>'
      | (r, \<sigma>') \<Rightarrow> (r, \<sigma>'))"

fun dereferenceScope ::
  "'s workloads \<Rightarrow> string \<Rightarrow> WorkloadStatus list \<Rightarrow> Workload list \<Rightarrow> 's world \<Rightarrow> outcome \<times> 's world" where
  "dereferenceScope a namespace [] w \<sigma> = (Ok, \<sigma>)"
| "dereferenceScope a namespace (st # status) w \<sigma> =
     (case leaveLoop a namespace st (removalCandidates st w) \<sigma> of
        (Ok, \<sigma>') \<Rightarrow> dereferenceScope a namespace status w \<sigma>'
      | (r, \<sigma>') \<Rightarrow> (r, \<sigma>'))"

section \<open>Workload applicator\<close>

text \<open>One turn of the trait loop (lines 79-94). The stamp is written into the map that
  \<^verbatim>\<open>t\<close> and \<^verbatim>\<open>trait\<close> share, so the stamped document is the one applied and the one
  named in a later error.\<close>

definition applyTrait ::
  "'s workloads \<Rightarrow> TypedReference \<Rightarrow> Unstructured \<Rightarrow> Unstructured \<Rightarrow> 's world \<Rightarrow> outcome \<times> 's world" where
  "applyTrait a workloadRef wlDoc t \<sigma> =
     (case doFetchTraitDefinition a t \<sigma> of
        (Inl err, \<sigma>1) \<Rightarrow>
          (Err (Wrapf err errFmtGetTraitDefinition [GetAPIVersion t, GetKind t, GetName t]), \<sigma>1)
      | (Inr traitDefinition, \<sigma>1) \<Rightarrow>
          (let workloadRefPath = WorkloadRefPath traitDefinition
           in case (if length workloadRefPath \<noteq> 0
                    then SetValue t workloadRefPath (Struct workloadRef) else Inr t) of
                Inl err \<Rightarrow>
                  (Err (Wrapf err errFmtSetWorkloadRef [GetName t, GetName wlDoc]), \<sigma>1)
              | Inr t' \<Rightarrow>
                  (case doApply a t' \<sigma>1 of
                     (Some err, _, \<sigma>2) \<Rightarrow>
                       (Err (Wrapf err errFmtApplyTrait [GetAPIVersion t', GetKind t', GetName t']), \<sigma>2)
                   | (None, _, \<sigma>2) \<Rightarrow> (Ok, \<sigma>2))))"

fun applyTraits ::
  "'s workloads \<Rightarrow> TypedReference \<Rightarrow> Unstructured \<Rightarrow> Unstructured list \<Rightarrow> 's world \<Rightarrow> outcome \<times> 's world" where
  "applyTraits a workloadRef wlDoc [] \<sigma> = (Ok, \<sigma>)"
| "applyTraits a workloadRef wlDoc (t # ts) \<sigma> =
     (case applyTrait a workloadRef wlDoc t \<sigma> of
        (Ok, \<sigma>') \<Rightarrow> applyTraits a workloadRef wlDoc ts \<sigma>'
      | (r, \<sigma>') \<Rightarrow> (r, \<sigma>'))"

text \<open>Lines 72-76, on the document as \<^verbatim>\<open>client.Apply\<close> left it.\<close>

definition workloadRefOf :: "Unstructured \<Rightarrow> TypedReference" where
  "workloadRefOf d = \<lparr>APIVersion = GetAPIVersion d, Kind = GetKind d, Name = GetName d\<rparr>"

text \<open>The loop over the workload set (lines 68-100). The first component of the result is
  \<open>Some r\<close> when the function returned \<open>r\<close> from inside the loop and \<open>None\<close> when the
  loop ran to its end; the second is the workload set with the workload documents as
  applied (the traits, which the rest of the pass never reads, as given). The scope loop
  of lines 97-99 returns in its first turn.\<close>

fun applyLoop ::
  "'s workloads \<Rightarrow> Workload list \<Rightarrow> 's world \<Rightarrow> outcome option \<times> Workload list \<times> 's world" where
  "applyLoop a [] \<sigma> = (None, [], \<sigma>)"
| "applyLoop a (wl # w) \<sigma> =
     (case doApply a (Workload wl) \<sigma> of
        (Some err, d, \<sigma>1) \<Rightarrow> (Some (Err (Wrapf err errFmtApplyWorkload [GetName d])), [], \<sigma>1)
      | (None, d, \<sigma>1) \<Rightarrow>
          (case applyTraits a (workloadRefOf d) d (Traits wl) \<sigma>1 of
             (Ok, \<sigma>2) \<Rightarrow>
               (case Workload.Scopes wl of
                  s # _ \<Rightarrow>
                    (case applyScope a (wl\<lparr>Workload := d\<rparr>) s (workloadRefOf d) \<sigma>2 of
                       (r, \<sigma>3) \<Rightarrow> (Some r, [], \<sigma>3))
                | [] \<Rightarrow>
                    (case applyLoop a w \<sigma>2 of
                       (r, w', \<sigma>3) \<Rightarrow> (r, wl\<lparr>Workload := d\<rparr> # w', \<sigma>3)))
           | (r, \<sigma>2) \<Rightarrow> (Some r, [], \<sigma>2)))"

definition Apply ::
  "'s workloads \<Rightarrow> WorkloadStatus list \<Rightarrow> Workload list \<Rightarrow> 's world \<Rightarrow> outcome \<times> 's world" where
  "Apply a status w \<sigma> =
     (case w of
        [] \<Rightarrow> (Err (New ''the application has no component''), \<sigma>)
      | w0 # _ \<Rightarrow>
          (let namespace = GetNamespace (Workload w0)
           in case applyLoop a w \<sigma> of
                (Some r, _, \<sigma>') \<Rightarrow> (r, \<sigma>')
              | (None, w', \<sigma>') \<Rightarrow> dereferenceScope a namespace status w' \<sigma>'))"

section \<open>Vocabulary of the properties\<close>

text \<open>A membership entry is well typed when it is a map.\<close>

fun isObj :: "val \<Rightarrow> bool" where
  "isObj (Obj m) = True"
| "isObj v = False"

text \<open>The object keys fetched by \<^verbatim>\<open>rawClient.Get\<close>, in order.\<close>

fun getsOf :: "event list \<Rightarrow> ObjectKey list" where
  "getsOf [] = []"
| "getsOf (EvGet k # evs) = k # getsOf evs"
| "getsOf (ev # evs) = getsOf evs"

text \<open>An entry of a membership list is structurally equal to a reference when it is a
  map with these three fields, or the struct itself.\<close>

definition isEntry :: "TypedReference \<Rightarrow> val \<Rightarrow> bool" where
  "isEntry R v = (case v of Obj ref \<Rightarrow> refMatches R ref | Struct r \<Rightarrow> r = R | _ \<Rightarrow> False)"





text \<open>A value that is a slice; the key under which \<^verbatim>\<open>applyScopeRemoval\<close> fetches a
  scope; the world after that fetch; the calls a step added to the record; and paths of
  which neither leads into the other.\<close>

fun isLst :: "val \<Rightarrow> bool" where
  "isLst (Lst xs) = True"
| "isLst v = False"

definition scopeKey :: "string \<Rightarrow> WorkloadScope \<Rightarrow> ObjectKey" where
  "scopeKey namespace s =
     \<lparr>keyAPIVersion = APIVersion (WorkloadScope.Reference s),
      keyKind = Kind (WorkloadScope.Reference s),
      keyNamespace = namespace,
      keyName = Name (WorkloadScope.Reference s)\<rparr>"

definition fetched :: "'s world \<Rightarrow> ObjectKey \<Rightarrow> 's world" where
  "fetched \<sigma> k = \<sigma>\<lparr>trace := trace \<sigma> @ [EvGet k]\<rparr>"

definition disjointPath :: "string list \<Rightarrow> string list \<Rightarrow> bool" where
  "disjointPath q p \<longleftrightarrow> \<not> prefix q p \<and> \<not> prefix p q"

definition newEvents :: "'s world \<Rightarrow> 's world \<Rightarrow> event list" where
  "newEvents \<sigma> \<sigma>' = drop (length (trace \<sigma>)) (trace \<sigma>')"

section \<open>An in-memory object store and sample documents\<close>

text \<open>A store that keeps documents by identity, used to run the code on concrete inputs:
  \<open>Apply\<close> upserts, \<open>Update\<close> replaces an existing object, \<open>Get\<close> reads.\<close>

definition keyOf :: "Unstructured \<Rightarrow> ObjectKey" where
  "keyOf d = \<lparr>keyAPIVersion = GetAPIVersion d, keyKind = GetKind d,
              keyNamespace = GetNamespace d, keyName = GetName d\<rparr>"

type_synonym memStore = "(ObjectKey \<times> Unstructured) list"

definition memClient :: "memStore workloads" where
  "memClient = \<lparr>
     client_Apply = (\<lambda>d s. (None, d, AList.update (keyOf d) (jsonDoc d) s)),
     rawClient_Get = (\<lambda>k s. case map_of s k of
                               None \<Rightarrow> Inl (External ''not found'')
                             | Some d \<Rightarrow> Inr d),
     rawClient_Update = (\<lambda>d s. case map_of s (keyOf d) of
                               None \<Rightarrow> (Some (External ''not found''), s)
                             | Some _ \<Rightarrow> (None, AList.update (keyOf d) (jsonDoc d) s)),
     FetchTraitDefinition = (\<lambda>t s. if GetKind t = ''ManualScalerTrait''
                               then Inr \<lparr>WorkloadRefPath = [''spec'', ''workloadRef'']\<rparr>
                               else Inl (External ''no definition''))\<rparr>"

definition mkDoc :: "string \<Rightarrow> string \<Rightarrow> (string \<times> val) list \<Rightarrow> Unstructured" where
  "mkDoc kind name spec =
     [(''apiVersion'', Str ''core/v1alpha2''), (''kind'', Str kind),
      (''metadata'', Obj [(''name'', Str name), (''namespace'', Str ''default'')]),
      (''spec'', Obj spec)]"

definition mkRef :: "string \<Rightarrow> string \<Rightarrow> TypedReference" where
  "mkRef kind name = \<lparr>APIVersion = ''core/v1alpha2'', Kind = kind, Name = name\<rparr>"

definition healthScope :: Unstructured where
  "healthScope = mkDoc ''HealthScope'' ''health-scope'' [(''probe-timeout'', Num 5)]"

definition oldScope :: Unstructured where
  "oldScope = mkDoc ''HealthScope'' ''old-scope''
     [(''workloadRefs'', Lst [Obj (refJSON (mkRef ''ContainerizedWorkload'' ''web''))])]"

definition scaler :: Unstructured where
  "scaler = mkDoc ''ManualScalerTrait'' ''scaler'' [(''replicaCount'', Num 3)]"

definition web :: Workload where
  "web = \<lparr>Workload = mkDoc ''ContainerizedWorkload'' ''web'' [],
          Traits = [scaler], Scopes = [healthScope]\<rparr>"

definition priorWeb :: WorkloadStatus where
  "priorWeb = \<lparr>WorkloadStatus.Reference = mkRef ''ContainerizedWorkload'' ''web'',
               Scopes = [\<lparr>WorkloadScope.Reference = mkRef ''HealthScope'' ''health-scope''\<rparr>,
                         \<lparr>WorkloadScope.Reference = mkRef ''HealthScope'' ''old-scope''\<rparr>]\<rparr>"

definition world0 :: "memStore world" where
  "world0 = \<lparr>store = [(keyOf healthScope, healthScope), (keyOf oldScope, oldScope)], trace = []\<rparr>"

definition webRef :: TypedReference where
  "webRef = mkRef ''ContainerizedWorkload'' ''web''"

definition api :: Workload where
  "api = \<lparr>Workload = mkDoc ''ContainerizedWorkload'' ''api'' [], Traits = [], Scopes = [oldScope]\<rparr>"

definition badScope :: Unstructured where
  "badScope = mkDoc ''HealthScope'' ''bad-scope''
     [(''workloadRefs'', Lst [Obj (refJSON webRef), Str ''junk''])]"

definition junkScope :: Unstructured where
  "junkScope = mkDoc ''HealthScope'' ''junk-scope'' [(''workloadRefs'', Lst [Str ''junk''])]"

definition scopeOf :: "string \<Rightarrow> WorkloadScope" where
  "scopeOf name = \<lparr>WorkloadScope.Reference = mkRef ''HealthScope'' name\<rparr>"


definition world1 :: "memStore world" where
  "world1 = \<lparr>store = [(keyOf badScope, badScope), (keyOf junkScope, junkScope)], trace = []\<rparr>"

definition stampedScaler :: Unstructured where
  "stampedScaler = mkDoc ''ManualScalerTrait'' ''scaler''
     [(''replicaCount'', Num 3), (''workloadRef'', Obj (refJSON webRef))]"

definition joinedHealthScope :: Unstructured where
  "joinedHealthScope = mkDoc ''HealthScope'' ''health-scope''
     [(''probe-timeout'', Num 5), (''workloadRefs'', Lst [Obj (refJSON webRef)])]"

text \<open>A second workload with a trait of the same kind and no scope, its trait as stamped
  with the reference of a workload of a given name, and a store that, like
  \<^verbatim>\<open>generateName\<close>, names an object when it is applied.\<close>

definition scaler2 :: Unstructured where
  "scaler2 = mkDoc ''ManualScalerTrait'' ''scaler2'' [(''replicaCount'', Num 1)]"

definition api2 :: Workload where
  "api2 = \<lparr>Workload = mkDoc ''ContainerizedWorkload'' ''api2'' [], Traits = [scaler2], Scopes = []\<rparr>"

definition stampedScaler2 :: "string \<Rightarrow> Unstructured" where
  "stampedScaler2 name = mkDoc ''ManualScalerTrait'' ''scaler2''
     [(''replicaCount'', Num 1),
      (''workloadRef'', Obj (refJSON (mkRef ''ContainerizedWorkload'' name)))]"

definition namingClient :: "memStore workloads" where
  "namingClient = memClient\<lparr>client_Apply :=
     (\<lambda>d s. case SetValue d [''metadata'', ''name''] (Str (GetName d @ ''-1'')) of
               Inl err \<Rightarrow> (Some err, d, s)
             | Inr d' \<Rightarrow> (None, d', AList.update (keyOf d') (jsonDoc d') s))\<rparr>"

section \<open>Properties of the accessors and of the join\<close>

text \<open>The definitions that running the code on the sample documents unfolds.\<close>

lemmas eval_defs =
  Apply_def applyScope_def joinWrite_def applyScopeRemoval_def applyTrait_def
  doApply_def doUpdate_def doGet_def doFetchTraitDefinition_def
  GetValue_def SetValue_def specWorkloadRefs_def NestedString_def
  GetAPIVersion_def GetKind_def GetName_def GetNamespace_def workloadRefOf_def
  refMatches_def removeAt_def findDereferencedScopes_def sameWorkload_def removalCandidates_def
  jsonDoc_def refJSON_def keyOf_def memClient_def mkDoc_def mkRef_def
  healthScope_def oldScope_def scaler_def web_def priorWeb_def world0_def webRef_def
  scopeOf_def scopeKey_def fetched_def

lemma getIn_setIn_same: "setIn m f fs x = Inr m' \<Longrightarrow> getIn m' f fs = Inr x"
  by (induction m f fs x arbitrary: m' rule: setIn.induct)
     (auto simp: update_conv' split: option.splits val.splits sum.splits)

lemma GetValue_SetValue_same:
  "p \<noteq> [] \<Longrightarrow> SetValue u p x = Inr u' \<Longrightarrow> GetValue u' p = Inr (jsonVal x)"
  by (cases p) (auto simp: SetValue_def GetValue_def getIn_setIn_same)

lemma joinWrite_eq:
  "SetValue s specWorkloadRefs (Lst (refs @ [Struct R])) = Inr s' \<Longrightarrow>
   joinWrite a wl s R refs \<sigma> =
     (case rawClient_Update a s' (store \<sigma>) of
        (Some err, st') \<Rightarrow>
          (Err (Wrapf err errFmtApplyScope [GetAPIVersion s', GetKind s', GetName s']),
           \<lparr>store = st', trace = trace \<sigma> @ [EvUpdate s']\<rparr>)
      | (None, st') \<Rightarrow> (Ok, \<lparr>store = st', trace = trace \<sigma> @ [EvUpdate s']\<rparr>))"
  by (auto simp: joinWrite_def doUpdate_def split: prod.splits option.splits)

lemma joinWrite_fail:
  "SetValue s specWorkloadRefs (Lst (refs @ [Struct R])) = Inl err \<Longrightarrow>
   joinWrite a wl s R refs \<sigma> =
     (Err (Wrapf err errFmtSetWorkloadRef [GetName s, GetName (Workload wl)]), \<sigma>)"
  by (simp add: joinWrite_def)

text \<open>C8. When the membership list of a scope is absent (reading \<^verbatim>\<open>spec.workloadRefs\<close>
  fails) and the field can be set, \<^verbatim>\<open>applyScope\<close> treats the list as empty: the one
  document it submits to \<^verbatim>\<open>rawClient.Update\<close> holds a membership list of exactly the
  workload reference, and its result is that of the update.\<close>

theorem applyScope_absent_list:
  assumes "GetValue s specWorkloadRefs = Inl e"
      and "SetValue s specWorkloadRefs (Lst [Struct workloadRef]) = Inr s'"
  shows "GetValue s' specWorkloadRefs = Inr (Lst [Obj (refJSON workloadRef)]) \<and>
         applyScope a wl s workloadRef \<sigma> =
           (case rawClient_Update a s' (store \<sigma>) of
              (Some err, st') \<Rightarrow>
                (Err (Wrapf err errFmtApplyScope [GetAPIVersion s', GetKind s', GetName s']),
                 \<lparr>store = st', trace = trace \<sigma> @ [EvUpdate s']\<rparr>)
            | (None, st') \<Rightarrow> (Ok, \<lparr>store = st', trace = trace \<sigma> @ [EvUpdate s']\<rparr>))"
proof
  show "GetValue s' specWorkloadRefs = Inr (Lst [Obj (refJSON workloadRef)])"
    using GetValue_SetValue_same[OF _ assms(2)] by (simp add: specWorkloadRefs_def)
next
  have "applyScope a wl s workloadRef \<sigma> = joinWrite a wl s workloadRef [] \<sigma>"
    using assms(1) by (simp add: applyScope_def)
  then show "applyScope a wl s workloadRef \<sigma> =
           (case rawClient_Update a s' (store \<sigma>) of
              (Some err, st') \<Rightarrow>
                (Err (Wrapf err errFmtApplyScope [GetAPIVersion s', GetKind s', GetName s']),
                 \<lparr>store = st', trace = trace \<sigma> @ [EvUpdate s']\<rparr>)
            | (None, st') \<Rightarrow> (Ok, \<lparr>store = st', trace = trace \<sigma> @ [EvUpdate s']\<rparr>))"
    using joinWrite_eq[of s "[]" workloadRef s' a wl \<sigma>] assms(2) by simp
qed

text \<open>The health scope of the samples has no membership list.\<close>

theorem applyScope_absent_list_witness:
  "GetValue healthScope specWorkloadRefs = Inl (New ''no such field'') \<and>
   SetValue healthScope specWorkloadRefs (Lst [Struct webRef]) =
     Inr (mkDoc ''HealthScope'' ''health-scope''
            [(''probe-timeout'', Num 5), (''workloadRefs'', Lst [Obj (refJSON webRef)])]) \<and>
   GetValue (mkDoc ''HealthScope'' ''health-scope''
            [(''probe-timeout'', Num 5), (''workloadRefs'', Lst [Obj (refJSON webRef)])])
      specWorkloadRefs = Inr (Lst [Obj (refJSON webRef)]) \<and>
   fst (applyScope memClient web healthScope webRef world0) = Ok \<and>
   trace (snd (applyScope memClient web healthScope webRef world0)) =
     [EvUpdate (mkDoc ''HealthScope'' ''health-scope''
            [(''probe-timeout'', Num 5), (''workloadRefs'', Lst [Obj (refJSON webRef)])])]"
proof -
  let ?s' = "mkDoc ''HealthScope'' ''health-scope''
            [(''probe-timeout'', Num 5), (''workloadRefs'', Lst [Obj (refJSON webRef)])]"
  have h1: "GetValue healthScope specWorkloadRefs = Inl (New ''no such field'')"
    by (simp add: eval_defs)
  have h2: "SetValue healthScope specWorkloadRefs (Lst [Struct webRef]) = Inr ?s'"
    by (simp add: eval_defs)
  have u: "rawClient_Update memClient ?s' (store world0) =
             (None, AList.update (keyOf ?s') (jsonDoc ?s') (store world0))"
    by (simp add: eval_defs)
  from applyScope_absent_list[OF h1 h2, of memClient web world0]
  show ?thesis using h1 h2 u by (simp add: world0_def)
qed





























section \<open>Properties of the leave\<close>

lemma workloadRef_eta:
  "\<lparr>APIVersion = APIVersion r, Kind = Kind r, Name = Name r\<rparr> = (r :: TypedReference)"
  by simp



lemma scanLeave_panic:
  "list_all isObj pre \<Longrightarrow> \<forall>v \<in> set pre. \<not> isEntry R v \<Longrightarrow> \<not> isObj x \<Longrightarrow>
   scanLeave R (pre @ x # post) i = None"
  by (induction R pre i rule: scanLeave.induct) (auto simp: isEntry_def elim: isObj.elims)

lemma scanJoin_panic:
  "list_all isObj pre \<Longrightarrow> \<forall>v \<in> set pre. \<not> isEntry R v \<Longrightarrow> \<not> isObj x \<Longrightarrow>
   scanJoin R (pre @ x # post) = None"
  by (induction R pre rule: scanJoin.induct) (auto simp: isEntry_def elim: isObj.elims)




lemma getIn_empty: "getIn [] h hs = Inl (New ''no such field'')"
  by (cases hs) auto

lemma getIn_cong_map_of: "map_of m' h = map_of m h \<Longrightarrow> getIn m' h hs = getIn m h hs"
  by (cases hs) auto

lemma setIn_frame:
  "setIn m f fs x = Inr m' \<Longrightarrow> disjointPath (h # hs) (f # fs) \<Longrightarrow> getIn m' h hs = getIn m h hs"
proof (induction m f fs x arbitrary: m' h hs rule: setIn.induct)
  case (1 m f x)
  then have "h \<noteq> f" by (auto simp: disjointPath_def)
  with 1 show ?case by (auto intro!: getIn_cong_map_of simp: update_conv')
next
  case (2 m f g gs x)
  show ?case
  proof (cases "h = f")
    case False
    with 2 show ?thesis
      by (auto intro!: getIn_cong_map_of simp: update_conv' split: option.splits val.splits sum.splits)
  next
    case True
    with 2(4) obtain h' hs' where hs: "hs = h' # hs'" and d: "disjointPath (h' # hs') (g # gs)"
      by (cases hs) (auto simp: disjointPath_def)
    show ?thesis
    proof (cases "map_of m f")
      case None
      with 2(3) obtain c where c: "setIn [] g gs x = Inr c" and m': "m' = AList.update f (Obj c) m"
        by (auto split: sum.splits)
      from 2(1)[OF None c d] show ?thesis
        using None True hs m' by (simp add: update_conv' getIn_empty)
    next
      case (Some v)
      with 2(3) obtain c0 c where v: "v = Obj c0" and c: "setIn c0 g gs x = Inr c"
        and m': "m' = AList.update f (Obj c) m"
        by (auto split: sum.splits val.splits)
      from 2(2)[OF Some v c d] show ?thesis
        using Some v True hs m' by (simp add: update_conv')
    qed
  qed
qed

lemma SetValue_frame:
  assumes "SetValue u p x = Inr u'" "p \<noteq> []" "disjointPath q p"
  shows "GetValue u' q = GetValue u q"
proof -
  from assms(3) have "q \<noteq> []" by (auto simp: disjointPath_def)
  then obtain h hs where q: "q = h # hs" by (cases q) auto
  from assms(2) obtain f fs where p: "p = f # fs" by (cases p) auto
  show ?thesis
    using assms setIn_frame[of u f fs "jsonVal x" u' h hs] by (simp add: q p SetValue_def GetValue_def)
qed

lemma leave_get_fails:
  "rawClient_Get a (scopeKey ns s) (store \<sigma>) = Inl err \<Longrightarrow>
   applyScopeRemoval a ns ws s \<sigma> =
     (Err (Wrapf err errFmtApplyScope
        [APIVersion (WorkloadScope.Reference s), Kind (WorkloadScope.Reference s),
         Name (WorkloadScope.Reference s)]), fetched \<sigma> (scopeKey ns s))"
  by (simp add: applyScopeRemoval_def doGet_def scopeKey_def fetched_def Let_def)

lemma leave_fetched:
  "rawClient_Get a (scopeKey ns s) (store \<sigma>) = Inr so \<Longrightarrow>
   applyScopeRemoval a ns ws s \<sigma> =
     (case GetValue so specWorkloadRefs of
        Inl err \<Rightarrow> (Ok, fetched \<sigma> (scopeKey ns s))
      | Inr (Lst refs) \<Rightarrow>
          (case scanLeave (WorkloadStatus.Reference ws) refs 0 of
             None \<Rightarrow> (Panic, fetched \<sigma> (scopeKey ns s))
           | Some i \<Rightarrow>
               if i \<ge> 0 then
                 (case SetValue so specWorkloadRefs (Lst (removeAt refs i)) of
                    Inl err \<Rightarrow>
                      (Err (Wrapf err errFmtSetWorkloadRef
                         [Name (WorkloadScope.Reference s), Name (WorkloadStatus.Reference ws)]),
                       fetched \<sigma> (scopeKey ns s))
                  | Inr so' \<Rightarrow>
                      (case doUpdate a so' (fetched \<sigma> (scopeKey ns s)) of
                         (Some err, \<sigma>2) \<Rightarrow>
                           (Err (Wrapf err errFmtApplyScope
                              [APIVersion (WorkloadScope.Reference s),
                               Kind (WorkloadScope.Reference s),
                               Name (WorkloadScope.Reference s)]), \<sigma>2)
                       | (None, \<sigma>2) \<Rightarrow> (Ok, \<sigma>2)))
               else (Ok, fetched \<sigma> (scopeKey ns s)))
      | Inr _ \<Rightarrow> (Panic, fetched \<sigma> (scopeKey ns s)))"
  by (simp add: applyScopeRemoval_def doGet_def scopeKey_def fetched_def Let_def workloadRef_eta
      cong: sum.case_cong val.case_cong option.case_cong if_cong)



text \<open>C10 as stated fails: a list whose first entry equals the reference and whose second
  is a string makes neither the join nor the leave panic.\<close>

theorem scope_mutation_panics_counterexample:
  "GetValue badScope specWorkloadRefs = Inr (Lst [Obj (refJSON webRef), Str ''junk'']) \<and>
   \<not> isObj (Str ''junk'') \<and>
   applyScope memClient web badScope webRef world1 = (Ok, world1) \<and>
   rawClient_Get memClient (scopeKey ''default'' (scopeOf ''bad-scope'')) (store world1) =
     Inr badScope \<and>
   fst (applyScopeRemoval memClient ''default'' priorWeb (scopeOf ''bad-scope'') world1) = Ok"
  by (simp add: eval_defs badScope_def junkScope_def world1_def Let_def)

text \<open>C10, as amended. When \<^verbatim>\<open>spec.workloadRefs\<close> holds a value that is not a list, or
  a list in which an element that is not a map comes before any entry equal to the
  workload reference, \<^verbatim>\<open>applyScope\<close> and \<^verbatim>\<open>applyScopeRemoval\<close> (after its fetch)
  panic: they return no error and write nothing.\<close>

theorem scope_mutation_panics:
  "(GetValue s specWorkloadRefs = Inr v \<and>
    (\<not> isLst v \<or>
     v = Lst (pre @ x # post) \<and> list_all isObj pre \<and> (\<forall>u \<in> set pre. \<not> isEntry R u) \<and> \<not> isObj x) \<longrightarrow>
      applyScope a wl s R \<sigma> = (Panic, \<sigma>)) \<and>
   (rawClient_Get a (scopeKey ns sc) (store \<sigma>) = Inr so \<and>
    GetValue so specWorkloadRefs = Inr v \<and>
    (\<not> isLst v \<or>
     v = Lst (pre @ x # post) \<and> list_all isObj pre \<and>
     (\<forall>u \<in> set pre. \<not> isEntry (WorkloadStatus.Reference ws) u) \<and> \<not> isObj x) \<longrightarrow>
      applyScopeRemoval a ns ws sc \<sigma> = (Panic, fetched \<sigma> (scopeKey ns sc)))"
proof (intro conjI impI)
  assume h: "GetValue s specWorkloadRefs = Inr v \<and>
    (\<not> isLst v \<or>
     v = Lst (pre @ x # post) \<and> list_all isObj pre \<and> (\<forall>u \<in> set pre. \<not> isEntry R u) \<and> \<not> isObj x)"
  show "applyScope a wl s R \<sigma> = (Panic, \<sigma>)"
  proof (cases "isLst v")
    case False
    with h show ?thesis by (cases v) (auto simp: applyScope_def)
  next
    case True
    with h have "v = Lst (pre @ x # post)" "scanJoin R (pre @ x # post) = None"
      using scanJoin_panic[of pre R x post] by auto
    with h show ?thesis by (simp add: applyScope_def)
  qed
next
  assume h: "rawClient_Get a (scopeKey ns sc) (store \<sigma>) = Inr so \<and>
    GetValue so specWorkloadRefs = Inr v \<and>
    (\<not> isLst v \<or>
     v = Lst (pre @ x # post) \<and> list_all isObj pre \<and>
     (\<forall>u \<in> set pre. \<not> isEntry (WorkloadStatus.Reference ws) u) \<and> \<not> isObj x)"
  show "applyScopeRemoval a ns ws sc \<sigma> = (Panic, fetched \<sigma> (scopeKey ns sc))"
  proof (cases "isLst v")
    case False
    with h show ?thesis by (cases v) (auto simp: leave_fetched)
  next
    case True
    with h have "v = Lst (pre @ x # post)"
      "scanLeave (WorkloadStatus.Reference ws) (pre @ x # post) 0 = None"
      using scanLeave_panic[of pre "WorkloadStatus.Reference ws" x post 0] by auto
    with h show ?thesis by (simp add: leave_fetched)
  qed
qed

text \<open>A list whose only element is a string.\<close>

theorem scope_mutation_panics_witness:
  "GetValue junkScope specWorkloadRefs = Inr (Lst [Str ''junk'']) \<and>
   \<not> isObj (Str ''junk'') \<and>
   applyScope memClient web junkScope webRef world1 = (Panic, world1) \<and>
   rawClient_Get memClient (scopeKey ''default'' (scopeOf ''junk-scope'')) (store world1) =
     Inr junkScope \<and>
   applyScopeRemoval memClient ''default'' priorWeb (scopeOf ''junk-scope'') world1 =
     (Panic, fetched world1 (scopeKey ''default'' (scopeOf ''junk-scope'')))"
proof -
  have v: "GetValue junkScope specWorkloadRefs = Inr (Lst [Str ''junk''])"
    by (simp add: eval_defs badScope_def junkScope_def world1_def)
  have g: "rawClient_Get memClient (scopeKey ''default'' (scopeOf ''junk-scope'')) (store world1) =
     Inr junkScope"
    by (simp add: eval_defs badScope_def junkScope_def world1_def)
  note inst = scope_mutation_panics[where s = junkScope and v = "Lst [Str ''junk'']"
      and pre = "[]" and x = "Str ''junk''" and post = "[]" and R = webRef and a = memClient
      and wl = web and \<sigma> = world1 and ns = "''default''" and sc = "scopeOf ''junk-scope''"
      and so = junkScope and ws = priorWeb]
  from inst v g show ?thesis by simp
qed

lemma applyScope_events:
  "newEvents \<sigma> (snd (applyScope a wl s R \<sigma>)) = [] \<or>
   (\<exists>v s'. SetValue s specWorkloadRefs v = Inr s' \<and>
      newEvents \<sigma> (snd (applyScope a wl s R \<sigma>)) = [EvUpdate s'])"
  by (auto simp: applyScope_def joinWrite_def doUpdate_def newEvents_def
      split: sum.splits val.splits option.splits bool.splits prod.splits)

lemma applyScopeRemoval_events:
  "rawClient_Get a (scopeKey ns sc) (store \<sigma>) = Inr so \<Longrightarrow>
   newEvents \<sigma> (snd (applyScopeRemoval a ns ws sc \<sigma>)) = [EvGet (scopeKey ns sc)] \<or>
   (\<exists>v so'. SetValue so specWorkloadRefs v = Inr so' \<and>
      newEvents \<sigma> (snd (applyScopeRemoval a ns ws sc \<sigma>)) = [EvGet (scopeKey ns sc), EvUpdate so'])"
  by (auto simp: leave_fetched doUpdate_def newEvents_def fetched_def
      split: sum.splits val.splits option.splits bool.splits prod.splits)

lemma applyScopeRemoval_events_fail:
  "rawClient_Get a (scopeKey ns sc) (store \<sigma>) = Inl e \<Longrightarrow>
   newEvents \<sigma> (snd (applyScopeRemoval a ns ws sc \<sigma>)) = [EvGet (scopeKey ns sc)]"
  by (simp add: leave_get_fails newEvents_def fetched_def)

text \<open>C9. Every document that \<^verbatim>\<open>applyScope\<close> or \<^verbatim>\<open>applyScopeRemoval\<close> submits to
  \<^verbatim>\<open>rawClient.Update\<close> reads the same as the scope document it started from (the one
  passed in, respectively the one fetched) at every path that neither leads to
  \<^verbatim>\<open>spec.workloadRefs\<close> nor lies below it.\<close>

theorem scope_mutation_frame:
  "(\<forall>d q. EvUpdate d \<in> set (newEvents \<sigma> (snd (applyScope a wl s R \<sigma>))) \<and>
          disjointPath q specWorkloadRefs \<longrightarrow> GetValue d q = GetValue s q) \<and>
   (\<forall>d q. EvUpdate d \<in> set (newEvents \<sigma> (snd (applyScopeRemoval a ns ws sc \<sigma>))) \<and>
          disjointPath q specWorkloadRefs \<longrightarrow>
          (\<exists>so. rawClient_Get a (scopeKey ns sc) (store \<sigma>) = Inr so \<and> GetValue d q = GetValue so q))"
proof (intro conjI allI impI)
  fix d q
  assume h: "EvUpdate d \<in> set (newEvents \<sigma> (snd (applyScope a wl s R \<sigma>))) \<and>
          disjointPath q specWorkloadRefs"
  with applyScope_events[of \<sigma> a wl s R]
  obtain v where "SetValue s specWorkloadRefs v = Inr d"
    by auto
  then show "GetValue d q = GetValue s q"
    using h by (intro SetValue_frame) (auto simp: specWorkloadRefs_def)
next
  fix d q
  assume h: "EvUpdate d \<in> set (newEvents \<sigma> (snd (applyScopeRemoval a ns ws sc \<sigma>))) \<and>
          disjointPath q specWorkloadRefs"
  show "\<exists>so. rawClient_Get a (scopeKey ns sc) (store \<sigma>) = Inr so \<and> GetValue d q = GetValue so q"
  proof (cases "rawClient_Get a (scopeKey ns sc) (store \<sigma>)")
    case (Inl e)
    with h applyScopeRemoval_events_fail[OF Inl, where ws = ws] show ?thesis by simp
  next
    case (Inr so)
    with h applyScopeRemoval_events[OF Inr, where ws = ws]
    obtain v where "SetValue so specWorkloadRefs v = Inr d"
      by auto
    then have "GetValue d q = GetValue so q"
      using h by (intro SetValue_frame) (auto simp: specWorkloadRefs_def)
    with Inr show ?thesis by simp
  qed
qed


text \<open>The join of the health scope keeps \<^verbatim>\<open>spec.probe-timeout\<close>; the leave of the old
  scope keeps \<^verbatim>\<open>metadata.name\<close>.\<close>

theorem scope_mutation_frame_witness:
  "EvUpdate joinedHealthScope \<in>
     set (newEvents world0 (snd (applyScope memClient web healthScope webRef world0))) \<and>
   disjointPath [''spec'', ''probe-timeout''] specWorkloadRefs \<and>
   GetValue joinedHealthScope [''spec'', ''probe-timeout''] =
     GetValue healthScope [''spec'', ''probe-timeout''] \<and>
   EvUpdate (mkDoc ''HealthScope'' ''old-scope'' [(''workloadRefs'', Lst [])]) \<in>
     set (newEvents world0
       (snd (applyScopeRemoval memClient ''default'' priorWeb (scopeOf ''old-scope'') world0))) \<and>
   disjointPath [''metadata'', ''name''] specWorkloadRefs \<and>
   rawClient_Get memClient (scopeKey ''default'' (scopeOf ''old-scope'')) (store world0) =
     Inr oldScope \<and>
   GetValue (mkDoc ''HealthScope'' ''old-scope'' [(''workloadRefs'', Lst [])]) [''metadata'', ''name''] =
     GetValue oldScope [''metadata'', ''name'']"
proof -
  let ?so' = "mkDoc ''HealthScope'' ''old-scope'' [(''workloadRefs'', Lst [])]"
  have e1: "EvUpdate joinedHealthScope \<in>
     set (newEvents world0 (snd (applyScope memClient web healthScope webRef world0)))"
    by (simp add: eval_defs joinedHealthScope_def newEvents_def disjointPath_def)
  have d1: "disjointPath [''spec'', ''probe-timeout''] specWorkloadRefs"
    by (simp add: eval_defs joinedHealthScope_def newEvents_def disjointPath_def)
  have e2: "EvUpdate ?so' \<in> set (newEvents world0
       (snd (applyScopeRemoval memClient ''default'' priorWeb (scopeOf ''old-scope'') world0)))"
    by (simp add: eval_defs joinedHealthScope_def newEvents_def disjointPath_def Let_def)
  have d2: "disjointPath [''metadata'', ''name''] specWorkloadRefs"
    by (simp add: eval_defs joinedHealthScope_def newEvents_def disjointPath_def)
  have g: "rawClient_Get memClient (scopeKey ''default'' (scopeOf ''old-scope'')) (store world0) =
     Inr oldScope"
    by (simp add: eval_defs joinedHealthScope_def newEvents_def disjointPath_def)
  note inst = scope_mutation_frame[where \<sigma> = world0 and a = memClient and wl = web
      and s = healthScope and R = webRef and ns = "''default''" and ws = priorWeb
      and sc = "scopeOf ''old-scope''"]
  from inst e1 d1 have c1: "GetValue joinedHealthScope [''spec'', ''probe-timeout''] =
     GetValue healthScope [''spec'', ''probe-timeout'']"
    by blast
  from inst e2 d2 g have c2: "GetValue ?so' [''metadata'', ''name''] =
     GetValue oldScope [''metadata'', ''name'']"
    by (metis sum.inject(2))
  show ?thesis using e1 d1 e2 d2 g c1 c2 by simp
qed

section \<open>Properties of the differ\<close>

lemma findLoop_filter:
  "findLoop statusScopes scopes acc = acc @ filter (\<lambda>ss. \<not> scopeFound ss scopes) statusScopes"
  by (induction statusScopes arbitrary: acc) auto

lemma scopeFound_iff:
  "scopeFound ss scopes \<longleftrightarrow>
     (\<exists>s \<in> set scopes. GetAPIVersion s = APIVersion (WorkloadScope.Reference ss) \<and>
        GetKind s = Kind (WorkloadScope.Reference ss) \<and>
        GetName s = Name (WorkloadScope.Reference ss))"
  by (induction scopes) auto

lemma narrow_no_match:
  "\<forall>wl \<in> set w. \<not> sameWorkload st wl \<Longrightarrow> narrow st w tb = tb"
  by (induction w arbitrary: tb) auto

lemma narrow_last_match:
  "sameWorkload st wl \<Longrightarrow> \<forall>x \<in> set post. \<not> sameWorkload st x \<Longrightarrow>
   narrow st (pre @ wl # post) tb =
     findDereferencedScopes (WorkloadStatus.Scopes st) (Workload.Scopes wl)"
  by (induction pre arbitrary: tb) (auto simp: narrow_no_match)

text \<open>C4. For a prior-status entry that matches no workload of the current set, every
  scope it records is a removal candidate. For an entry that matches a workload (when
  several match, the loop keeps the result for the last one), the candidates are exactly
  the recorded scopes, in order, that no scope of that workload equals in apiVersion,
  kind and name.\<close>

theorem removalCandidates_differ:
  "((\<forall>wl \<in> set w. \<not> sameWorkload st wl) \<longrightarrow>
      removalCandidates st w = WorkloadStatus.Scopes st) \<and>
   (w = pre @ wl # post \<and> sameWorkload st wl \<and> (\<forall>x \<in> set post. \<not> sameWorkload st x) \<longrightarrow>
      removalCandidates st w =
        filter (\<lambda>ss. \<not> (\<exists>s \<in> set (Workload.Scopes wl).
                  GetAPIVersion s = APIVersion (WorkloadScope.Reference ss) \<and>
                  GetKind s = Kind (WorkloadScope.Reference ss) \<and>
                  GetName s = Name (WorkloadScope.Reference ss)))
          (WorkloadStatus.Scopes st))"
  by (auto simp: removalCandidates_def narrow_no_match narrow_last_match
      findDereferencedScopes_def findLoop_filter scopeFound_iff)

text \<open>The prior status of \<open>web\<close> against a set that holds \<open>web\<close>, and against one
  that does not.\<close>

theorem removalCandidates_differ_witness:
  "sameWorkload priorWeb web \<and>
   removalCandidates priorWeb [web] =
     [\<lparr>WorkloadScope.Reference = mkRef ''HealthScope'' ''old-scope''\<rparr>] \<and>
   \<not> sameWorkload priorWeb api \<and>
   removalCandidates priorWeb [api] = WorkloadStatus.Scopes priorWeb"
proof -
  have h1: "sameWorkload priorWeb web" by (simp add: eval_defs api_def)
  have h2: "\<not> sameWorkload priorWeb api" by (simp add: eval_defs api_def)
  have "removalCandidates priorWeb [web] =
        filter (\<lambda>ss. \<not> (\<exists>s \<in> set (Workload.Scopes web).
                  GetAPIVersion s = APIVersion (WorkloadScope.Reference ss) \<and>
                  GetKind s = Kind (WorkloadScope.Reference ss) \<and>
                  GetName s = Name (WorkloadScope.Reference ss)))
          (WorkloadStatus.Scopes priorWeb)"
    using removalCandidates_differ[of "[web]" priorWeb "[]" web "[]"] h1 by simp
  then have c1: "removalCandidates priorWeb [web] =
     [\<lparr>WorkloadScope.Reference = mkRef ''HealthScope'' ''old-scope''\<rparr>]"
    by (simp add: eval_defs api_def)
  have c2: "removalCandidates priorWeb [api] = WorkloadStatus.Scopes priorWeb"
    using removalCandidates_differ[of "[api]" priorWeb] h2 by simp
  show ?thesis using h1 h2 c1 c2 by simp
qed

section \<open>Properties of the applicator\<close>

text \<open>C6. For every prior status, \<open>Apply\<close> on the empty workload set returns the
  "no component" error, and the store and the record of collaborator calls are what they
  were: nothing was applied, fetched or updated.\<close>

theorem Apply_empty_no_component:
  "Apply a status [] \<sigma> = (Err (New ''the application has no component''), \<sigma>)"
  by (simp add: Apply_def)

section \<open>The record of calls only grows\<close>

lemma prefix_trace_doUpdate: "prefix (trace \<sigma>) (trace (snd (doUpdate a d \<sigma>)))"
  by (simp add: doUpdate_def split: prod.splits)

lemma prefix_trace_doApply: "prefix (trace \<sigma>) (trace (snd (snd (doApply a d \<sigma>))))"
  by (simp add: doApply_def split: prod.splits)

lemma prefix_trace_applyScope: "prefix (trace \<sigma>) (trace (snd (applyScope a wl s R \<sigma>)))"
  by (auto simp: applyScope_def joinWrite_def doUpdate_def
      split: sum.splits val.splits option.splits bool.splits prod.splits)

lemma prefix_trace_applyScopeRemoval:
  "prefix (trace \<sigma>) (trace (snd (applyScopeRemoval a ns ws s \<sigma>)))"
  by (cases "rawClient_Get a (scopeKey ns s) (store \<sigma>)")
     (auto simp: leave_get_fails leave_fetched fetched_def doUpdate_def
      split: sum.splits val.splits option.splits prod.splits)

lemma prefix_trace_leaveLoop:
  "prefix (trace \<sigma>) (trace (snd (leaveLoop a ns st ss \<sigma>)))"
proof (induction ss arbitrary: \<sigma>)
  case Nil
  then show ?case by simp
next
  case (Cons s ss)
  obtain r \<sigma>' where step: "applyScopeRemoval a ns st s \<sigma> = (r, \<sigma>')"
    by (cases "applyScopeRemoval a ns st s \<sigma>")
  have p: "prefix (trace \<sigma>) (trace \<sigma>')"
    using prefix_trace_applyScopeRemoval[of \<sigma> a ns st s] step by simp
  show ?case
  proof (cases r)
    case Ok
    then show ?thesis
      using step p Cons.IH[of \<sigma>'] by (auto intro: prefix_order.trans)
  qed (use step p in auto)
qed

lemma prefix_trace_dereferenceScope:
  "prefix (trace \<sigma>) (trace (snd (dereferenceScope a ns status w \<sigma>)))"
proof (induction status arbitrary: \<sigma>)
  case Nil
  then show ?case by simp
next
  case (Cons st status)
  obtain r \<sigma>' where step: "leaveLoop a ns st (removalCandidates st w) \<sigma> = (r, \<sigma>')"
    by (cases "leaveLoop a ns st (removalCandidates st w) \<sigma>")
  have p: "prefix (trace \<sigma>) (trace \<sigma>')"
    using prefix_trace_leaveLoop[of \<sigma> a ns st "removalCandidates st w"] step by simp
  show ?case
  proof (cases r)
    case Ok
    then show ?thesis
      using step p Cons.IH[of \<sigma>'] by (auto intro: prefix_order.trans)
  qed (use step p in auto)
qed

lemma prefix_trace_applyTrait:
  "prefix (trace \<sigma>) (trace (snd (applyTrait a R d t \<sigma>)))"
  by (auto simp: applyTrait_def doFetchTraitDefinition_def doApply_def Let_def
      split: sum.splits option.splits prod.splits)

lemma prefix_trace_applyTraits:
  "prefix (trace \<sigma>) (trace (snd (applyTraits a R d ts \<sigma>)))"
proof (induction ts arbitrary: \<sigma>)
  case Nil
  then show ?case by simp
next
  case (Cons t ts)
  obtain r \<sigma>' where step: "applyTrait a R d t \<sigma> = (r, \<sigma>')"
    by (cases "applyTrait a R d t \<sigma>")
  have p: "prefix (trace \<sigma>) (trace \<sigma>')"
    using prefix_trace_applyTrait[of \<sigma> a R d t] step by simp
  show ?case
  proof (cases r)
    case Ok
    then show ?thesis
      using step p Cons.IH[of \<sigma>'] by (auto intro: prefix_order.trans)
  qed (use step p in auto)
qed


lemma prefix_trace_applyLoop:
  "prefix (trace \<sigma>) (trace (snd (snd (applyLoop a w \<sigma>))))"
proof (induction w arbitrary: \<sigma>)
  case Nil
  then show ?case by simp
next
  case (Cons wl w)
  obtain e d \<sigma>1 where ap: "doApply a (Workload wl) \<sigma> = (e, d, \<sigma>1)"
    by (cases "doApply a (Workload wl) \<sigma>") auto
  have p1: "prefix (trace \<sigma>) (trace \<sigma>1)"
    using prefix_trace_doApply[of \<sigma> a "Workload wl"] ap by simp
  show ?case
  proof (cases e)
    case (Some err)
    then show ?thesis using ap p1 by simp
  next
    case None
    obtain r \<sigma>2 where tr: "applyTraits a (workloadRefOf d) d (Traits wl) \<sigma>1 = (r, \<sigma>2)"
      by (cases "applyTraits a (workloadRefOf d) d (Traits wl) \<sigma>1")
    have p2: "prefix (trace \<sigma>) (trace \<sigma>2)"
      using prefix_trace_applyTraits[of \<sigma>1 a "workloadRefOf d" d "Traits wl"] tr p1
      by (auto intro: prefix_order.trans)
    show ?thesis
    proof (cases r)
      case Ok
      show ?thesis
      proof (cases "Workload.Scopes wl")
        case Nil
        then show ?thesis
          using ap None tr Ok p2 Cons.IH[of \<sigma>2]
          by (auto split: prod.splits intro: prefix_order.trans)
      next
        case (Cons s ss)
        then show ?thesis
          using ap None tr Ok p2
            prefix_trace_applyScope[of \<sigma>2 a "wl\<lparr>Workload := d\<rparr>" s "workloadRefOf d"]
          by (auto split: prod.splits intro: prefix_order.trans)
      qed
    qed (use ap None tr p2 in auto)
  qed
qed

lemma applyLoop_append:
  "applyLoop a pre \<sigma> = (None, pre', \<sigma>1) \<Longrightarrow>
   applyLoop a (pre @ rest) \<sigma> =
     (case applyLoop a rest \<sigma>1 of (r, w', \<sigma>') \<Rightarrow> (r, pre' @ w', \<sigma>'))"
proof (induction pre arbitrary: \<sigma> pre')
  case Nil
  then show ?case by (simp split: prod.splits)
next
  case (Cons wl pre)
  then show ?case
    by (auto split: prod.splits option.splits outcome.splits list.splits)
qed

lemma applyTraits_append:
  "applyTraits a R d tpre \<sigma> = (Ok, \<sigma>') \<Longrightarrow>
   applyTraits a R d (tpre @ rest) \<sigma> = applyTraits a R d rest \<sigma>'"
  by (induction tpre arbitrary: \<sigma>) (auto split: prod.splits outcome.splits)

lemma Apply_nonempty:
  "w \<noteq> [] \<Longrightarrow> Apply a status w \<sigma> =
     (case applyLoop a w \<sigma> of
        (Some r, _, \<sigma>') \<Rightarrow> (r, \<sigma>')
      | (None, w', \<sigma>') \<Rightarrow> dereferenceScope a (GetNamespace (Workload (hd w))) status w' \<sigma>')"
  by (cases w) (simp_all add: Apply_def del: applyLoop.simps split: prod.splits option.splits)

lemma prefix_trace_Apply_loop:
  "w \<noteq> [] \<Longrightarrow> prefix (trace (snd (snd (applyLoop a w \<sigma>)))) (trace (snd (Apply a status w \<sigma>)))"
  by (auto simp: Apply_nonempty prefix_trace_dereferenceScope split: prod.splits option.splits)


lemma applyTrait_stamped:
  assumes "FetchTraitDefinition a t (store \<sigma>) = Inr td" "WorkloadRefPath td \<noteq> []"
      and "SetValue t (WorkloadRefPath td) (Struct R) = Inr t'"
  shows "prefix (trace \<sigma> @ [EvFetchTraitDefinition t, EvApply t'])
           (trace (snd (applyTrait a R d t \<sigma>)))"
proof -
  obtain e d' s' where c: "client_Apply a t' (store \<sigma>) = (e, d', s')"
    by (cases "client_Apply a t' (store \<sigma>)") auto
  show ?thesis
    using assms c
    by (cases e) (simp_all add: applyTrait_def doFetchTraitDefinition_def doApply_def)
qed

lemma prefix_applyTraits_Cons:
  "prefix (trace (snd (applyTrait a R d t \<sigma>))) (trace (snd (applyTraits a R d (t # ts) \<sigma>)))"
proof (cases "applyTrait a R d t \<sigma>")
  case (Pair r \<sigma>')
  then show ?thesis
    using prefix_trace_applyTraits[of \<sigma>' a R d ts] by (cases r) simp_all
qed

lemma prefix_applyLoop_Cons:
  assumes "doApply a (Workload wl) \<sigma>1 = (None, d, \<sigma>2)"
  shows "prefix (trace (snd (applyTraits a (workloadRefOf d) d (Traits wl) \<sigma>2)))
           (trace (snd (snd (applyLoop a (wl # post) \<sigma>1))))"
proof (cases "applyTraits a (workloadRefOf d) d (Traits wl) \<sigma>2")
  case (Pair r \<sigma>')
  show ?thesis
  proof (cases r)
    case Ok
    show ?thesis
    proof (cases "Workload.Scopes wl")
      case Nil
      obtain r3 w3 \<sigma>3 where l: "applyLoop a post \<sigma>' = (r3, w3, \<sigma>3)"
        by (cases "applyLoop a post \<sigma>'") auto
      then show ?thesis
        using assms Pair Ok Nil prefix_trace_applyLoop[of \<sigma>' a post] by simp
    next
      case (Cons s ss)
      obtain r3 \<sigma>3 where l: "applyScope a (wl\<lparr>Workload := d\<rparr>) s (workloadRefOf d) \<sigma>' = (r3, \<sigma>3)"
        by (cases "applyScope a (wl\<lparr>Workload := d\<rparr>) s (workloadRefOf d) \<sigma>'") auto
      then show ?thesis
        using assms Pair Ok Cons
          prefix_trace_applyScope[of \<sigma>' a "wl\<lparr>Workload := d\<rparr>" s "workloadRefOf d"]
        by simp
    qed
  next
    case (Err e)
    then show ?thesis using assms Pair by simp
  next
    case Panic
    then show ?thesis using assms Pair by simp
  qed
qed

text \<open>What the trait loop does for a trait it reaches. When the workloads before \<open>wl\<close>
  ran through, \<open>wl\<close> was applied as document \<open>d\<close>, the traits before \<open>t\<close>
  succeeded and the definition resolved for \<open>t\<close> names a path: either setting the field
  fails and \<open>Apply\<close> returns that failure with the names of the trait and the workload,
  or the stamped trait reads, at that path, the reference of \<open>d\<close>, and the next call
  of the pass after the lookup applies the stamped trait.\<close>

lemma Apply_stamps_trait:
  assumes reach_wl: "applyLoop a pre \<sigma> = (None, pre', \<sigma>1)"
      and applied: "doApply a (Workload wl) \<sigma>1 = (None, d, \<sigma>2)"
      and traits: "Traits wl = tpre @ t # tpost"
      and reach_t: "applyTraits a (workloadRefOf d) d tpre \<sigma>2 = (Ok, \<sigma>3)"
      and resolved: "FetchTraitDefinition a t (store \<sigma>3) = Inr td"
      and path: "WorkloadRefPath td \<noteq> []"
  shows "case SetValue t (WorkloadRefPath td) (Struct (workloadRefOf d)) of
           Inl err \<Rightarrow>
             Apply a status (pre @ wl # post) \<sigma> =
               (Err (Wrapf err errFmtSetWorkloadRef [GetName t, GetName d]),
                \<sigma>3\<lparr>trace := trace \<sigma>3 @ [EvFetchTraitDefinition t]\<rparr>)
         | Inr t' \<Rightarrow>
             GetValue t' (WorkloadRefPath td) = Inr (Obj (refJSON (workloadRefOf d))) \<and>
             prefix (trace \<sigma>3 @ [EvFetchTraitDefinition t, EvApply t'])
                    (trace (snd (Apply a status (pre @ wl # post) \<sigma>)))"
proof (cases "SetValue t (WorkloadRefPath td) (Struct (workloadRefOf d))")
  case (Inl err)
  have t: "applyTrait a (workloadRefOf d) d t \<sigma>3 =
             (Err (Wrapf err errFmtSetWorkloadRef [GetName t, GetName d]),
              \<sigma>3\<lparr>trace := trace \<sigma>3 @ [EvFetchTraitDefinition t]\<rparr>)"
    using resolved path Inl by (simp add: applyTrait_def doFetchTraitDefinition_def)
  have "applyTraits a (workloadRefOf d) d (Traits wl) \<sigma>2 =
             (Err (Wrapf err errFmtSetWorkloadRef [GetName t, GetName d]),
              \<sigma>3\<lparr>trace := trace \<sigma>3 @ [EvFetchTraitDefinition t]\<rparr>)"
    unfolding traits applyTraits_append[OF reach_t] using t by simp
  then have "applyLoop a (wl # post) \<sigma>1 =
             (Some (Err (Wrapf err errFmtSetWorkloadRef [GetName t, GetName d])), [],
              \<sigma>3\<lparr>trace := trace \<sigma>3 @ [EvFetchTraitDefinition t]\<rparr>)"
    using applied by simp
  then have "Apply a status (pre @ wl # post) \<sigma> =
               (Err (Wrapf err errFmtSetWorkloadRef [GetName t, GetName d]),
                \<sigma>3\<lparr>trace := trace \<sigma>3 @ [EvFetchTraitDefinition t]\<rparr>)"
    by (simp add: Apply_nonempty applyLoop_append[OF reach_wl])
  then show ?thesis using Inl by simp
next
  case (Inr t')
  have g: "GetValue t' (WorkloadRefPath td) = Inr (Obj (refJSON (workloadRefOf d)))"
    using GetValue_SetValue_same[OF path Inr] by simp
  let ?evs = "trace \<sigma>3 @ [EvFetchTraitDefinition t, EvApply t']"
  have "prefix ?evs (trace (snd (applyTrait a (workloadRefOf d) d t \<sigma>3)))"
    using applyTrait_stamped[OF resolved path Inr] .
  also have "prefix \<dots> (trace (snd (applyTraits a (workloadRefOf d) d (t # tpost) \<sigma>3)))"
    by (rule prefix_applyTraits_Cons)
  also have "applyTraits a (workloadRefOf d) d (t # tpost) \<sigma>3 =
             applyTraits a (workloadRefOf d) d (Traits wl) \<sigma>2"
    unfolding traits applyTraits_append[OF reach_t] ..
  also have "prefix (trace (snd (applyTraits a (workloadRefOf d) d (Traits wl) \<sigma>2)))
               (trace (snd (snd (applyLoop a (wl # post) \<sigma>1))))"
    using prefix_applyLoop_Cons[OF applied] .
  also have "trace (snd (snd (applyLoop a (wl # post) \<sigma>1))) =
             trace (snd (snd (applyLoop a (pre @ wl # post) \<sigma>)))"
    unfolding applyLoop_append[OF reach_wl] by (cases "applyLoop a (wl # post) \<sigma>1") simp
  also have "prefix \<dots> (trace (snd (Apply a status (pre @ wl # post) \<sigma>)))"
    by (rule prefix_trace_Apply_loop) simp
  finally have "prefix ?evs (trace (snd (Apply a status (pre @ wl # post) \<sigma>)))" .
  then show ?thesis using Inr g by simp
qed

section \<open>The return inside the scope loop\<close>

text \<open>The scope loop of lines 97-99 returns the result of its first join from \<open>Apply\<close>
  itself: the scopes after the first, the workloads after this one and the prior status
  are never looked at.\<close>

lemma Apply_first_scope_returns:
  assumes "doApply a (Workload wl) \<sigma> = (None, d, \<sigma>1)"
      and "applyTraits a (workloadRefOf d) d (Traits wl) \<sigma>1 = (Ok, \<sigma>2)"
      and "Workload.Scopes wl = s # ss"
  shows "Apply a status (wl # w) \<sigma> = applyScope a (wl\<lparr>Workload := d\<rparr>) s (workloadRefOf d) \<sigma>2"
  using assms by (simp add: Apply_def split: prod.splits)

text \<open>C1. A pass whose per-workload steps all succeed is to run the scope-departure
  reconciliation once, after all workloads, over every prior-status entry; line 102 does so
  when the loop runs to its end. It is skipped as soon as a workload has a scope. On the
  sample pass (workload \<open>web\<close> with one trait and the health scope; the prior status
  records \<open>web\<close> in the health scope and in the old scope) \<open>Apply\<close> returns success
  and the old scope is a removal candidate, yet no scope is fetched and the old scope
  still lists \<open>web\<close>. The same pass with the scope list of \<open>web\<close> emptied does fetch
  both recorded scopes.\<close>

theorem Apply_skips_dereferenceScope:
  "fst (Apply memClient [priorWeb] [web] world0) = Ok \<and>
   removalCandidates priorWeb [web] = [scopeOf ''old-scope''] \<and>
   getsOf (trace (snd (Apply memClient [priorWeb] [web] world0))) = [] \<and>
   map_of (store (snd (Apply memClient [priorWeb] [web] world0))) (keyOf oldScope) = Some oldScope \<and>
   getsOf (trace (snd (Apply memClient [priorWeb] [web\<lparr>Workload.Scopes := []\<rparr>] world0))) =
     [scopeKey ''default'' (scopeOf ''health-scope''), scopeKey ''default'' (scopeOf ''old-scope'')]"
  by (simp add: eval_defs Let_def)

text \<open>C2. Each workload that has scopes is to have its first scope joined. On the set
  \<open>[web, api]\<close>, both with one scope, the pass returns success right after the join of
  \<open>web\<close>: \<open>api\<close> is not applied and its scope, the old scope, is never updated.\<close>

theorem Apply_returns_after_first_join:
  "Workload.Scopes api = [oldScope] \<and>
   fst (Apply memClient [] [web, api] world0) = Ok \<and>
   trace (snd (Apply memClient [] [web, api] world0)) =
     [EvApply (Workload web), EvFetchTraitDefinition scaler, EvApply stampedScaler,
      EvUpdate joinedHealthScope] \<and>
   map_of (store (snd (Apply memClient [] [web, api] world0))) (keyOf oldScope) = Some oldScope"
  by (simp add: eval_defs api_def stampedScaler_def joinedHealthScope_def Let_def)

text \<open>C5. Every trait whose definition names a workload-reference path is to hold, after
  the pass, the reference \<open>{apiVersion, kind, name}\<close> of its workload as applied, and to
  be created or updated in storage. On the set \<open>[web, api2]\<close> (\<open>web\<close> with a scope,
  \<open>api2\<close> with a trait whose definition names \<^verbatim>\<open>spec.workloadRef\<close>) the pass
  returns success after the join of \<open>web\<close>: the trait of \<open>web\<close> is stamped and
  stored, the trait of \<open>api2\<close> is neither looked up, stamped nor stored. On the set
  \<open>[api2]\<close> alone the same trait is stamped with the reference of \<open>api2\<close> and
  stored, and when the store names the workload on apply, with the name the store gave.\<close>

theorem Apply_leaves_trait_unstamped:
  "FetchTraitDefinition memClient scaler2 (store world0) =
     Inr \<lparr>WorkloadRefPath = [''spec'', ''workloadRef'']\<rparr> \<and>
   fst (Apply memClient [] [web, api2] world0) = Ok \<and>
   trace (snd (Apply memClient [] [web, api2] world0)) =
     [EvApply (Workload web), EvFetchTraitDefinition scaler, EvApply stampedScaler,
      EvUpdate joinedHealthScope] \<and>
   map_of (store (snd (Apply memClient [] [web, api2] world0))) (keyOf scaler) =
     Some stampedScaler \<and>
   map_of (store (snd (Apply memClient [] [web, api2] world0))) (keyOf scaler2) = None \<and>
   fst (Apply memClient [] [api2] world0) = Ok \<and>
   trace (snd (Apply memClient [] [api2] world0)) =
     [EvApply (Workload api2), EvFetchTraitDefinition scaler2, EvApply (stampedScaler2 ''api2'')] \<and>
   map_of (store (snd (Apply memClient [] [api2] world0))) (keyOf scaler2) =
     Some (stampedScaler2 ''api2'') \<and>
   trace (snd (Apply namingClient [] [api2] world0)) =
     [EvApply (Workload api2), EvFetchTraitDefinition scaler2, EvApply (stampedScaler2 ''api2-1'')]"
  by (simp add: eval_defs stampedScaler_def joinedHealthScope_def scaler2_def api2_def
      stampedScaler2_def namingClient_def Let_def)

end
